theory Spec2Isabelle
  imports Complex_Main
begin

section \<open>Values shared by the builder and the renderer\<close>

text \<open>
  The engine only stores and copies floating-point components (coordinates, normals,
  colours, matrix entries); it never computes with them. They are taken as real
  numbers. A matrix is the list of its rows.
\<close>

type_synonym vec3 = "real \<times> real \<times> real"
type_synonym vec4 = "real \<times> real \<times> real \<times> real"
type_synonym mat4 = "vec4 list"
type_synonym tri = "nat \<times> nat \<times> nat"

text \<open>The Python exceptions that the modelled code can meet.\<close>

datatype py_error = KeyError | ValueError | RuntimeError | IndexError | TypeError | AttributeError

section \<open>The host's mesh, as \<open>MeshDraw.__init__\<close> reads it\<close>

text \<open>
  A loop carries the index of its vertex and its normal. A mesh gives the vertex
  coordinates (\<open>co\<close>), the loops, the \<open>loops\<close> triple of every loop triangle (as
  \<open>calc_loop_triangles\<close> leaves them), the \<open>color\<close> data of the active vertex-colour
  layer when there is one, and the exception that \<open>calc_tangents\<close> raises on this
  mesh, if any.
\<close>

record loop =
  vertex_index :: int
  normal :: vec3

record mesh =
  vertices :: "vec3 list"
  loops :: "loop list"
  loop_triangles :: "tri list"
  vertex_colors_active :: "vec4 list option"
  calc_tangents :: "py_error option"

text \<open>
  \<open>np.empty\<close> returns uninitialised memory. Each of the five arrays that
  \<open>MeshDraw.__init__\<close> allocates that way gets its own arbitrary initial contents:
  cell \<open>i\<close> of the array starts as the function's value at \<open>i\<close>.
\<close>

record uninit =
  junk_vertices :: "nat \<Rightarrow> vec3"
  junk_normals :: "nat \<Rightarrow> vec3"
  junk_indices :: "nat \<Rightarrow> tri"
  junk_merged_vertices :: "nat \<Rightarrow> vec3"
  junk_loop_vertices :: "nat \<Rightarrow> int"

definition np_empty :: "(nat \<Rightarrow> 'a) \<Rightarrow> nat \<Rightarrow> 'a list" where
  "np_empty junk n = map junk [0..<n]"

definition np_zeros :: "nat \<Rightarrow> vec4 list" where
  "np_zeros n = replicate n (0, 0, 0, 0)"

text \<open>
  \<open>collection.foreach_get(attr, array)\<close> overwrites the whole array with the attribute
  of every element; the host refuses an array of another size with a \<open>TypeError\<close>. The
  arrays are kept row by row (the source reshapes them to flat views of the same memory).
\<close>

definition foreach_get :: "'a list \<Rightarrow> 'a list \<Rightarrow> py_error + 'a list" where
  "foreach_get attr array = (if length array = length attr then Inr attr else Inl TypeError)"

text \<open>
  Reading \<open>a[j]\<close> with a NumPy integer: a negative index counts from the end, an index
  out of range raises \<open>IndexError\<close>. Writing \<open>a[i] = v\<close> likewise.
\<close>

definition np_get :: "'a list \<Rightarrow> int \<Rightarrow> py_error + 'a" where
  "np_get a j =
     (let n = int (length a); k = (if j < 0 then n + j else j)
      in if 0 \<le> k \<and> k < n then Inr (a ! nat k) else Inl IndexError)"

definition np_set :: "'a list \<Rightarrow> nat \<Rightarrow> 'a \<Rightarrow> py_error + 'a list" where
  "np_set a i v = (if i < length a then Inr (a[i := v]) else Inl IndexError)"

text \<open>
  The gather loop, lines 195-196:
  \<^verbatim>\<open>for i in range(len(mesh.loops)): vertices[i] = merged_vertices[loop_vertices[i]]\<close>
  over the indices still to visit (\<open>verts\<close> is the array \<open>vertices\<close> being filled).
\<close>

fun gather :: "vec3 list \<Rightarrow> int list \<Rightarrow> nat list \<Rightarrow> vec3 list \<Rightarrow> py_error + vec3 list" where
  "gather merged_vertices loop_vertices [] verts = Inr verts"
| "gather merged_vertices loop_vertices (i # rest) verts =
     (case np_get loop_vertices (int i) of
        Inl e \<Rightarrow> Inl e
      | Inr j \<Rightarrow>
          (case np_get merged_vertices j of
             Inl e \<Rightarrow> Inl e
           | Inr v \<Rightarrow>
               (case np_set verts i v of
                  Inl e \<Rightarrow> Inl e
                | Inr verts' \<Rightarrow> gather merged_vertices loop_vertices rest verts')))"

text \<open>
  The vertex data handed to \<open>batch_for_shader\<close>: the attributes \<open>position\<close>,
  \<open>normal\<close> and \<open>color\<close>, and the triangle indices.
\<close>

record MeshBuffer =
  positions :: "vec3 list"
  normals :: "vec3 list"
  colors :: "vec4 list"
  indices :: "tri list"

text \<open>
  Lines 177-201 of \<open>MeshDraw.__init__\<close>, in the source's order. A \<open>RuntimeError\<close> of
  \<open>calc_tangents\<close> is caught (it only clears the local \<open>use_split_normals\<close>, which
  nothing reads); any other exception leaves the constructor.
\<close>

definition build :: "uninit \<Rightarrow> mesh \<Rightarrow> py_error + MeshBuffer" where
  "build u m =
     (case (case calc_tangents m of
              None \<Rightarrow> Inr True
            | Some RuntimeError \<Rightarrow> Inr False
            | Some e \<Rightarrow> Inl e) of
        Inl e \<Rightarrow> Inl e
      | Inr use_split_normals \<Rightarrow>
     (let vertices0 = np_empty (junk_vertices u) (length (loops m));
          color0 = np_zeros (length (loops m));
          normals0 = np_empty (junk_normals u) (length (loops m));
          indices0 = np_empty (junk_indices u) (length (loop_triangles m));
          merged_vertices0 = np_empty (junk_merged_vertices u) (length (vertices m))
      in case foreach_get (vertices m) merged_vertices0 of
           Inl e \<Rightarrow> Inl e
         | Inr merged_vertices \<Rightarrow>
      (let loop_vertices0 = np_empty (junk_loop_vertices u) (length (loops m))
       in case foreach_get (map vertex_index (loops m)) loop_vertices0 of
            Inl e \<Rightarrow> Inl e
          | Inr loop_vertices \<Rightarrow>
       (case gather merged_vertices loop_vertices [0..<length (loops m)] vertices0 of
          Inl e \<Rightarrow> Inl e
        | Inr vertices1 \<Rightarrow>
       (case foreach_get (loop_triangles m) indices0 of
          Inl e \<Rightarrow> Inl e
        | Inr indices1 \<Rightarrow>
       (case foreach_get (map normal (loops m)) normals0 of
          Inl e \<Rightarrow> Inl e
        | Inr normals1 \<Rightarrow>
       (case (case vertex_colors_active m of
                None \<Rightarrow> Inr color0
              | Some layer \<Rightarrow> foreach_get layer color0) of
          Inl e \<Rightarrow> Inl e
        | Inr color1 \<Rightarrow>
            Inr \<lparr>positions = vertices1, normals = normals1,
                 colors = color1, indices = indices1\<rparr>)))))))"

section \<open>Scene objects and the dependency graph\<close>

text \<open>
  An object has a name, a type tag, its data block and its world matrix. The data of a
  light carries the light's own type (\<open>'SUN'\<close>, \<open>'POINT'\<close>, ...).
\<close>

datatype obj_data = MeshData mesh | LightData string | NoData

record obj =
  name :: string
  type :: string
  data :: obj_data
  matrix_world :: mat4

text \<open>
  A datablock of \<open>depsgraph.ids\<close> is an object or something else (a mesh, a material,
  ...); \<open>isinstance(datablock, bpy.types.Object)\<close> tells them apart.
\<close>

datatype datablock = Object obj | OtherID string

record update =
  update_id :: datablock
  is_updated_geometry :: bool

record object_instance =
  object :: obj

record depsgraph =
  ids :: "datablock list"
  updates :: "update list"
  object_instances :: "object_instance list"
  id_type_updated :: "string \<Rightarrow> bool"

section \<open>Shader program, uniforms and GPU calls\<close>

text \<open>
  A compiled program is known by the names of its uniforms. A value is set through
  \<open>uniform_float\<close> (a matrix or a number) or through \<open>uniform_bool\<close>.
\<close>

record shader_program =
  uniforms :: "string list"

datatype uniform_value = FloatMatrix mat4 | FloatNumber real | BoolList "bool list"

text \<open>
  The calls that reach the GPU module, in the order made. A call on a shader or a batch
  carries the identity of the \<open>MeshDraw\<close> that owns it.
\<close>

datatype gpu_call =
    DepthMaskSet bool
  | DepthTestSet string
  | FaceCullingSet string
  | ShaderBind nat
  | Uniform nat string uniform_value
  | BatchDraw nat

record region_data =
  view_matrix :: mat4
  window_matrix :: mat4

record settings =
  enable_outline :: bool
  outline_width :: real
  shading_sharpness :: real

record view_context =
  context_region_data :: region_data
  custom_render_engine :: settings

section \<open>\<open>MeshDraw\<close>\<close>

text \<open>
  What the constructor takes from its surroundings: the contents of uninitialised
  memory (for the \<open>MeshDraw\<close> of each identity), the outcome of compiling the three
  shader sources, and the host's vector rotation: \<open>sun_direction m\<close> is
  \<open>Vector((0, 0, 1))\<close> rotated by \<open>m.decompose()[1]\<close>.
\<close>

record host =
  memory :: "nat \<Rightarrow> uninit"
  GPUShader :: "py_error + shader_program"
  sun_direction :: "mat4 \<Rightarrow> vec3"

record MeshDraw =
  transform :: "mat4 option"
  shader :: shader_program
  batch :: MeshBuffer
  draw_object :: "obj option"
  ident :: nat

text \<open>
  \<open>MeshDraw(mesh)\<close>: the object created has identity \<open>i\<close>. Data that is not a mesh has
  no \<open>calc_loop_triangles\<close>.
\<close>

definition MeshDraw_init :: "host \<Rightarrow> nat \<Rightarrow> obj_data \<Rightarrow> py_error + MeshDraw" where
  "MeshDraw_init h i d =
     (case d of
        MeshData m \<Rightarrow>
          (case build (memory h i) m of
             Inl e \<Rightarrow> Inl e
           | Inr b \<Rightarrow>
               (case GPUShader h of
                  Inl e \<Rightarrow> Inl e
                | Inr sh \<Rightarrow>
                    Inr \<lparr>transform = None, shader = sh, batch = b,
                         draw_object = None, ident = i\<rparr>))
      | _ \<Rightarrow> Inl AttributeError)"

text \<open>The local \<open>min\<close> of \<open>MeshDraw.draw\<close>.\<close>

definition min_local :: "nat \<Rightarrow> nat \<Rightarrow> nat" where
  "min_local a b = (if a > b then b else a)"

definition Matrix_Diagonal :: "vec4 \<Rightarrow> mat4" where
  "Matrix_Diagonal d =
     (case d of (a, b, c, e) \<Rightarrow> [(a, 0, 0, 0), (0, b, 0, 0), (0, 0, c, 0), (0, 0, 0, e)])"

text \<open>\<open>row.xyz = v\<close> keeps the fourth component of the row.\<close>

definition set_xyz :: "vec4 \<Rightarrow> vec3 \<Rightarrow> vec4" where
  "set_xyz row v = (case row of (x, y, z, w) \<Rightarrow> (case v of (a, b, c) \<Rightarrow> (a, b, c, w)))"

text \<open>
  Indexing a Python sequence, or the rows of a matrix, with a non-negative integer: an
  index past the end raises \<open>IndexError\<close>.
\<close>

definition py_index :: "'a list \<Rightarrow> nat \<Rightarrow> py_error + 'a" where
  "py_index xs i = (if i < length xs then Inr (xs ! i) else Inl IndexError)"

text \<open>
  Lines 230-231, \<^verbatim>\<open>for i in range(min(len(lights), 4)): packed_lights[i].xyz = lights[i]\<close>,
  over the indices still to visit: \<open>lights[i]\<close> is read, then row \<open>i\<close> of the matrix is
  taken and its first three components are set. Either index raises \<open>IndexError\<close>
  when it is out of range.
\<close>

fun pack_rows :: "vec3 list \<Rightarrow> nat list \<Rightarrow> mat4 \<Rightarrow> py_error + mat4" where
  "pack_rows ls [] packed = Inr packed"
| "pack_rows ls (i # rest) packed =
     (case py_index ls i of
        Inl e \<Rightarrow> Inl e
      | Inr v \<Rightarrow>
          (case py_index packed i of
             Inl e \<Rightarrow> Inl e
           | Inr row \<Rightarrow> pack_rows ls rest (packed[i := set_xyz row v])))"

definition packed_lights :: "vec3 list \<Rightarrow> py_error + mat4" where
  "packed_lights ls =
     pack_rows ls [0..<min_local (length ls) 4] (Matrix_Diagonal (0, 0, 0, 0))"

definition component :: "nat \<Rightarrow> vec4 \<Rightarrow> real" where
  "component j row =
     (case row of (x, y, z, w) \<Rightarrow> if j = 0 then x else if j = 1 then y else if j = 2 then z else w)"

definition transposed :: "mat4 \<Rightarrow> mat4" where
  "transposed m =
     map (\<lambda>j. (component j (m ! 0), component j (m ! 1), component j (m ! 2), component j (m ! 3)))
       [0, 1, 2, 3]"

text \<open>
  \<open>shader.uniform_float(name, value)\<close> and \<open>shader.uniform_bool(name, value)\<close>: a name
  that the program does not have raises \<open>ValueError\<close>.
\<close>

definition uniform_set :: "MeshDraw \<Rightarrow> string \<Rightarrow> uniform_value \<Rightarrow> py_error + gpu_call" where
  "uniform_set self nm v =
     (if nm \<in> set (uniforms (shader self)) then Inr (Uniform (ident self) nm v)
      else Inl ValueError)"

text \<open>
  The uniforms that the \<open>try\<close> block sets before it packs the lights (lines 225-228)
  and after (lines 232-235), in the order of the source.
\<close>

definition bindings_head :: "mat4 \<Rightarrow> region_data \<Rightarrow> (string \<times> uniform_value) list" where
  "bindings_head tr rd =
     [(''matrix_world'', FloatMatrix tr),
      (''view_matrix'', FloatMatrix (view_matrix rd)),
      (''projection_matrix'', FloatMatrix (window_matrix rd))]"

definition bindings_tail :: "mat4 \<Rightarrow> settings \<Rightarrow> (string \<times> uniform_value) list" where
  "bindings_tail packed st =
     [(''directional_lights'', FloatMatrix (transposed packed)),
      (''render_outlines'', BoolList [enable_outline st]),
      (''outline_width'', FloatNumber (outline_width st)),
      (''shading_sharpness'', FloatNumber (shading_sharpness st))]"

text \<open>
  A run of uniform calls inside the \<open>try\<close> block: they are made in order, and the first
  exception ends the run. The result is the calls made and the exception, if any.
\<close>

fun try_body :: "MeshDraw \<Rightarrow> (string \<times> uniform_value) list \<Rightarrow> gpu_call list \<times> py_error option" where
  "try_body self [] = ([], None)"
| "try_body self ((nm, v) # rest) =
     (case uniform_set self nm v of
        Inl e \<Rightarrow> ([], Some e)
      | Inr c \<Rightarrow> (case try_body self rest of (cs, r) \<Rightarrow> (c # cs, r)))"

text \<open>
  The \<open>try\<close> block of lines 224-235: three uniforms, the packing of the lights, four
  uniforms. The first exception ends the block.
\<close>

definition try_block :: "MeshDraw \<Rightarrow> mat4 \<Rightarrow> region_data \<Rightarrow> vec3 list \<Rightarrow> settings \<Rightarrow> gpu_call list \<times> py_error option" where
  "try_block self tr rd ls st =
     (case try_body self (bindings_head tr rd) of
        (cs, Some e) \<Rightarrow> (cs, Some e)
      | (cs, None) \<Rightarrow>
          (case packed_lights ls of
             Inl e \<Rightarrow> (cs, Some e)
           | Inr packed \<Rightarrow>
               (case try_body self (bindings_tail packed st) of
                  (cs', r) \<Rightarrow> (cs @ cs', r))))"

text \<open>
  \<open>MeshDraw.draw\<close>: bind, the \<open>try\<close> block, \<open>except ValueError: pass\<close>, then the batch
  is drawn. An exception other than \<open>ValueError\<close> leaves \<open>draw\<close> before the batch.
\<close>

definition draw :: "MeshDraw \<Rightarrow> mat4 \<Rightarrow> region_data \<Rightarrow> vec3 list \<Rightarrow> settings \<Rightarrow> gpu_call list \<times> py_error option" where
  "draw self tr rd ls st =
     (case try_block self tr rd ls st of
        (cs, None) \<Rightarrow> (ShaderBind (ident self) # cs @ [BatchDraw (ident self)], None)
      | (cs, Some ValueError) \<Rightarrow> (ShaderBind (ident self) # cs @ [BatchDraw (ident self)], None)
      | (cs, Some e) \<Rightarrow> (ShaderBind (ident self) # cs, Some e))"

section \<open>\<open>CustomRenderEngine\<close>\<close>

text \<open>
  The fields of the engine that the viewport callbacks use (\<open>draw_data\<close> is set to
  \<open>None\<close> and never touched again). \<open>allocated\<close> counts the \<open>MeshDraw\<close> objects created
  so far: the next one gets that number as its identity.
\<close>

record engine =
  scene_data :: "nat list option"
  draw_calls :: "string \<rightharpoonup> MeshDraw"
  lights :: "vec3 list"
  mesh_objects :: "obj list"
  allocated :: nat

definition engine_init :: engine where
  "engine_init = \<lparr>scene_data = None, draw_calls = Map.empty, lights = [],
                   mesh_objects = [], allocated = 0\<rparr>"

text \<open>Python's truth value of \<open>self.scene_data\<close>: \<open>None\<close> and the empty list are false.\<close>

definition truthy :: "nat list option \<Rightarrow> bool" where
  "truthy sd = (case sd of None \<Rightarrow> False | Some xs \<Rightarrow> xs \<noteq> [])"

text \<open>
  The three statements that build and store a cache entry (lines 91-93 and 106-108). An
  exception of the constructor leaves the engine as it was.
\<close>

definition cache_mesh :: "host \<Rightarrow> engine \<Rightarrow> obj \<Rightarrow> py_error option \<times> engine" where
  "cache_mesh h s ob =
     (case MeshDraw_init h (allocated s) (data ob) of
        Inl e \<Rightarrow> (Some e, s)
      | Inr d \<Rightarrow>
          (None, s\<lparr>draw_calls := (draw_calls s)(name ob \<mapsto> d\<lparr>draw_object := Some ob\<rparr>),
                    allocated := Suc (allocated s)\<rparr>))"

text \<open>The first-time loop over \<open>depsgraph.ids\<close> (lines 88-94).\<close>

fun sync_ids :: "host \<Rightarrow> engine \<Rightarrow> datablock list \<Rightarrow> py_error option \<times> engine" where
  "sync_ids h s [] = (None, s)"
| "sync_ids h s (d # rest) =
     (case d of
        Object ob \<Rightarrow>
          (if type ob = ''MESH'' then
             (case cache_mesh h s ob of
                (Some e, s') \<Rightarrow> (Some e, s')
              | (None, s') \<Rightarrow> sync_ids h s' rest)
           else sync_ids h s rest)
      | OtherID _ \<Rightarrow> sync_ids h s rest)"

text \<open>The loop over \<open>depsgraph.updates\<close> (lines 99-108).\<close>

fun sync_updates :: "host \<Rightarrow> engine \<Rightarrow> update list \<Rightarrow> py_error option \<times> engine" where
  "sync_updates h s [] = (None, s)"
| "sync_updates h s (u # rest) =
     (case update_id u of
        Object ob \<Rightarrow>
          (if type ob = ''MESH'' \<and> is_updated_geometry u then
             (case cache_mesh h s ob of
                (Some e, s') \<Rightarrow> (Some e, s')
              | (None, s') \<Rightarrow> sync_updates h s' rest)
           else sync_updates h s rest)
      | OtherID _ \<Rightarrow> sync_updates h s rest)"

text \<open>
  The two loops over \<open>depsgraph.object_instances\<close> (lines 119-122 and 126-133); the
  second argument is the list being appended to. Data without a \<open>type\<close> attribute (a
  mesh, or none) on an object tagged \<open>'LIGHT'\<close> raises \<open>AttributeError\<close>.
\<close>

fun collect_meshes :: "object_instance list \<Rightarrow> obj list \<Rightarrow> obj list" where
  "collect_meshes [] acc = acc"
| "collect_meshes (i # rest) acc =
     (if type (object i) = ''MESH'' then collect_meshes rest (acc @ [object i])
      else collect_meshes rest acc)"

fun collect_lights :: "host \<Rightarrow> object_instance list \<Rightarrow> vec3 list \<Rightarrow> py_error option \<times> vec3 list" where
  "collect_lights h [] acc = (None, acc)"
| "collect_lights h (i # rest) acc =
     (if type (object i) = ''LIGHT'' then
        (case data (object i) of
           LightData t \<Rightarrow>
             (if t = ''SUN'' then
                collect_lights h rest (acc @ [sun_direction h (matrix_world (object i))])
              else collect_lights h rest acc)
         | _ \<Rightarrow> (Some AttributeError, acc))
      else collect_lights h rest acc)"

text \<open>
  \<open>view_update\<close>. The result is the exception that left the method, if any, and the
  engine as the method left it.
\<close>

definition view_update :: "host \<Rightarrow> engine \<Rightarrow> view_context \<Rightarrow> depsgraph \<Rightarrow> py_error option \<times> engine" where
  "view_update h s c dg =
     (case (if \<not> truthy (scene_data s)
            then (case sync_ids h (s\<lparr>scene_data := Some [0]\<rparr>) (ids dg) of
                    (r, s') \<Rightarrow> (r, s', True))
            else (case sync_updates h s (updates dg) of
                    (r, s') \<Rightarrow> (r, s', False))) of
        (Some e, s1, first_time) \<Rightarrow> (Some e, s1)
      | (None, s1, first_time) \<Rightarrow>
          (if first_time \<or> id_type_updated dg ''OBJECT'' then
             (let s2 = s1\<lparr>mesh_objects := collect_meshes (object_instances dg) []\<rparr>
              in case collect_lights h (object_instances dg) [] of
                   (r, ls) \<Rightarrow> (r, s2\<lparr>lights := ls\<rparr>))
           else (None, s1)))"

text \<open>
  The loop of \<open>view_draw\<close> (lines 159-161): \<open>self.draw_calls[object.name]\<close> raises
  \<open>KeyError\<close> for a name that is not a key.
\<close>

fun draw_objects :: "engine \<Rightarrow> view_context \<Rightarrow> obj list \<Rightarrow> gpu_call list \<times> py_error option" where
  "draw_objects s c [] = ([], None)"
| "draw_objects s c (ob # rest) =
     (case draw_calls s (name ob) of
        None \<Rightarrow> ([], Some KeyError)
      | Some d \<Rightarrow>
          (case draw d (matrix_world ob) (context_region_data c) (lights s) (custom_render_engine c) of
             (cs, Some e) \<Rightarrow> (cs, Some e)
           | (cs, None) \<Rightarrow> (case draw_objects s c rest of (cs', r) \<Rightarrow> (cs @ cs', r))))"

definition gpu_state_begin :: "gpu_call list" where
  "gpu_state_begin = [DepthMaskSet True, DepthTestSet ''LESS_EQUAL'', FaceCullingSet ''BACK'']"

definition gpu_state_end :: "gpu_call list" where
  "gpu_state_end = [DepthTestSet ''NONE'', DepthMaskSet False, FaceCullingSet ''NONE'']"

text \<open>\<open>view_draw\<close>: the GPU calls made and the exception that left the method, if any.\<close>

definition view_draw :: "engine \<Rightarrow> view_context \<Rightarrow> depsgraph \<Rightarrow> gpu_call list \<times> py_error option" where
  "view_draw s c dg =
     (case draw_objects s c (mesh_objects s) of
        (cs, Some e) \<Rightarrow> (gpu_state_begin @ cs, Some e)
      | (cs, None) \<Rightarrow> (gpu_state_begin @ cs @ gpu_state_end, None))"

section \<open>What the host guarantees of a mesh\<close>

text \<open>
  The constructor checks none of this; the host keeps it for every mesh it hands out:
  a loop's vertex index names a vertex of the mesh, a loop triangle names three loops of
  the mesh, and a colour layer has one colour per loop.
\<close>

definition tri_below :: "nat \<Rightarrow> tri \<Rightarrow> bool" where
  "tri_below n t = (case t of (a, b, c) \<Rightarrow> a < n \<and> b < n \<and> c < n)"

definition host_mesh :: "mesh \<Rightarrow> bool" where
  "host_mesh m \<longleftrightarrow>
     list_all (\<lambda>l. 0 \<le> vertex_index l \<and> vertex_index l < int (length (vertices m))) (loops m) \<and>
     list_all (tri_below (length (loops m))) (loop_triangles m) \<and>
     (case vertex_colors_active m of
        None \<Rightarrow> True
      | Some layer \<Rightarrow> length layer = length (loops m))"

section \<open>Vocabulary of the statements\<close>

text \<open>A light direction as a row of the packed matrix: the fourth component is zero.\<close>

definition row_of :: "vec3 \<Rightarrow> vec4" where
  "row_of v = (case v of (a, b, c) \<Rightarrow> (a, b, c, 0))"

text \<open>
  The binding sequence of a draw call: the uniforms that the \<open>try\<close> block sets, in
  order, with the values it gives them (the packed lights among them).
\<close>

definition bindings :: "mat4 \<Rightarrow> region_data \<Rightarrow> vec3 list \<Rightarrow> settings \<Rightarrow> (string \<times> uniform_value) list" where
  "bindings tr rd ls st =
     bindings_head tr rd @
     (case packed_lights ls of Inl e \<Rightarrow> [] | Inr packed \<Rightarrow> bindings_tail packed st)"

text \<open>The call that sets a binding on a \<open>MeshDraw\<close>'s shader, and whether the program has it.\<close>

definition uniform_call :: "MeshDraw \<Rightarrow> string \<times> uniform_value \<Rightarrow> gpu_call" where
  "uniform_call self b = Uniform (ident self) (fst b) (snd b)"

definition has_uniform :: "MeshDraw \<Rightarrow> string \<times> uniform_value \<Rightarrow> bool" where
  "has_uniform self b \<longleftrightarrow> fst b \<in> set (uniforms (shader self))"

text \<open>An object whose name is a key of the cache.\<close>

definition cached :: "engine \<Rightarrow> obj \<Rightarrow> bool" where
  "cached s ob \<longleftrightarrow> draw_calls s (name ob) \<noteq> None"

text \<open>An update that makes \<open>view_update\<close> rebuild the entry under the key \<open>k\<close>.\<close>

definition rebuilds :: "string \<Rightarrow> update \<Rightarrow> bool" where
  "rebuilds k u =
     (case update_id u of
        Object ob \<Rightarrow> type ob = ''MESH'' \<and> is_updated_geometry u \<and> name ob = k
      | OtherID _ \<Rightarrow> False)"

definition is_sun :: "obj \<Rightarrow> bool" where
  "is_sun ob \<longleftrightarrow> type ob = ''LIGHT'' \<and> data ob = LightData ''SUN''"

section \<open>Example scenes\<close>

text \<open>
  One triangle with three loops, no colour layer and no UV map (so \<open>calc_tangents\<close>
  raises), the same triangle with a colour layer, and some contents of uninitialised
  memory.
\<close>

definition junk0 :: uninit where
  "junk0 = \<lparr>junk_vertices = (\<lambda>i. (7, 7, 7)), junk_normals = (\<lambda>i. (8, 8, 8)),
            junk_indices = (\<lambda>i. (9, 9, 9)), junk_merged_vertices = (\<lambda>i. (5, 5, 5)),
            junk_loop_vertices = (\<lambda>i. 42)\<rparr>"

definition triangle :: mesh where
  "triangle =
     \<lparr>vertices = [(0, 0, 0), (1, 0, 0), (0, 1, 0)],
      loops = [\<lparr>vertex_index = 0, normal = (0, 0, 1)\<rparr>,
               \<lparr>vertex_index = 1, normal = (0, 0, 1)\<rparr>,
               \<lparr>vertex_index = 2, normal = (0, 0, 1)\<rparr>],
      loop_triangles = [(0, 1, 2)],
      vertex_colors_active = None,
      calc_tangents = Some RuntimeError\<rparr>"

definition triangle_buffer :: MeshBuffer where
  "triangle_buffer =
     \<lparr>positions = [(0, 0, 0), (1, 0, 0), (0, 1, 0)],
      normals = [(0, 0, 1), (0, 0, 1), (0, 0, 1)],
      colors = [(0, 0, 0, 0), (0, 0, 0, 0), (0, 0, 0, 0)],
      indices = [(0, 1, 2)]\<rparr>"

definition rgb_layer :: "vec4 list" where
  "rgb_layer = [(1, 0, 0, 1), (0, 1, 0, 1), (0, 0, 1, 1)]"

definition colored_triangle :: mesh where
  "colored_triangle = triangle\<lparr>vertex_colors_active := Some rgb_layer\<rparr>"

text \<open>
  Objects of a small scene, two compiled programs that lack one uniform each, and
  engines in the states the statements below are tried on.
\<close>

definition identity4 :: mat4 where
  "identity4 = [(1, 0, 0, 0), (0, 1, 0, 0), (0, 0, 1, 0), (0, 0, 0, 1)]"

definition tilted :: mat4 where
  "tilted = [(0, 0, 1, 0), (0, 1, 0, 0), (-1, 0, 0, 0), (0, 0, 0, 1)]"

definition six_suns :: "vec3 list" where
  "six_suns = [(1, 0, 0), (0, 1, 0), (0, 0, 1), (-1, 0, 0), (0, -1, 0), (0, 0, -1)]"

definition full_program :: shader_program where
  "full_program =
     \<lparr>uniforms = [''matrix_world'', ''view_matrix'', ''projection_matrix'',
                  ''directional_lights'', ''render_outlines'', ''outline_width'',
                  ''shading_sharpness'']\<rparr>"

definition stale_program :: shader_program where
  "stale_program =
     \<lparr>uniforms = [''view_matrix'', ''projection_matrix'',
                  ''directional_lights'', ''render_outlines'', ''outline_width'',
                  ''shading_sharpness'']\<rparr>"

definition no_lights_program :: shader_program where
  "no_lights_program =
     \<lparr>uniforms = [''matrix_world'', ''view_matrix'', ''projection_matrix'',
                  ''render_outlines'', ''outline_width'', ''shading_sharpness'']\<rparr>"

definition cube :: obj where
  "cube = \<lparr>name = ''Cube'', type = ''MESH'', data = MeshData triangle, matrix_world = identity4\<rparr>"

definition plane :: obj where
  "plane = \<lparr>name = ''Plane'', type = ''MESH'', data = MeshData colored_triangle,
            matrix_world = identity4\<rparr>"

definition sun :: obj where
  "sun = \<lparr>name = ''Sun'', type = ''LIGHT'', data = LightData ''SUN'', matrix_world = tilted\<rparr>"

definition lamp :: obj where
  "lamp = \<lparr>name = ''Point'', type = ''LIGHT'', data = LightData ''POINT'',
           matrix_world = identity4\<rparr>"

definition camera :: obj where
  "camera = \<lparr>name = ''Camera'', type = ''CAMERA'', data = NoData, matrix_world = identity4\<rparr>"

definition host0 :: host where
  "host0 = \<lparr>memory = (\<lambda>i. junk0), GPUShader = Inr full_program,
            sun_direction = (\<lambda>m. (component 2 (m ! 0), component 2 (m ! 1), component 2 (m ! 2)))\<rparr>"

definition cube_draw :: MeshDraw where
  "cube_draw = \<lparr>transform = None, shader = full_program, batch = triangle_buffer,
                 draw_object = Some cube, ident = 0\<rparr>"

definition plane_draw :: MeshDraw where
  "plane_draw = \<lparr>transform = None, shader = full_program,
                  batch = triangle_buffer\<lparr>colors := rgb_layer\<rparr>,
                  draw_object = Some plane, ident = 1\<rparr>"

definition stale_draw :: MeshDraw where
  "stale_draw = plane_draw\<lparr>shader := stale_program\<rparr>"

definition no_lights_draw :: MeshDraw where
  "no_lights_draw = plane_draw\<lparr>shader := no_lights_program\<rparr>"

definition view0 :: region_data where
  "view0 = \<lparr>view_matrix = identity4, window_matrix = identity4\<rparr>"

definition settings0 :: settings where
  "settings0 = \<lparr>enable_outline = True, outline_width = 1, shading_sharpness = 1\<rparr>"

definition context0 :: view_context where
  "context0 = \<lparr>context_region_data = view0, custom_render_engine = settings0\<rparr>"

definition depsgraph0 :: depsgraph where
  "depsgraph0 = \<lparr>ids = [], updates = [], object_instances = [],
                  id_type_updated = (\<lambda>t. False)\<rparr>"

text \<open>An engine whose cache has no entry under \<open>''Cube''\<close>, with the cube visible.\<close>

definition stale_engine :: engine where
  "stale_engine = \<lparr>scene_data = Some [0], draw_calls = [''Plane'' \<mapsto> plane_draw],
                    lights = [], mesh_objects = [cube, plane], allocated = 2\<rparr>"

definition stale_engine2 :: engine where
  "stale_engine2 = stale_engine\<lparr>mesh_objects := [plane, cube, plane]\<rparr>"

text \<open>
  An engine after its first sync, and a notification in which the cube has moved (no
  geometry update), the plane's geometry has changed and objects were updated.
\<close>

definition synced_engine :: engine where
  "synced_engine = \<lparr>scene_data = Some [0],
                     draw_calls = [''Cube'' \<mapsto> cube_draw, ''Plane'' \<mapsto> plane_draw],
                     lights = [(0, 0, 1)], mesh_objects = [cube, plane], allocated = 2\<rparr>"

definition moved :: depsgraph where
  "moved = \<lparr>ids = [Object cube, Object plane, Object sun, Object lamp, Object camera],
             updates = [\<lparr>update_id = Object cube, is_updated_geometry = False\<rparr>,
                        \<lparr>update_id = Object plane, is_updated_geometry = True\<rparr>,
                        \<lparr>update_id = OtherID ''Scene'', is_updated_geometry = False\<rparr>],
             object_instances = [\<lparr>object = cube\<rparr>, \<lparr>object = sun\<rparr>, \<lparr>object = lamp\<rparr>,
                                 \<lparr>object = plane\<rparr>, \<lparr>object = camera\<rparr>],
             id_type_updated = (\<lambda>t. t = ''OBJECT'')\<rparr>"

section \<open>The geometry builder\<close>

subsection \<open>The gather loop\<close>

lemma length_np_empty: "length (np_empty junk n) = n"
  by (simp add: np_empty_def)

lemma np_get_in_range: "0 \<le> j \<Longrightarrow> j < int (length a) \<Longrightarrow> np_get a j = Inr (a ! nat j)"
  by (simp add: np_get_def Let_def)

lemma gather_length: "gather mv lv is vs = Inr r \<Longrightarrow> length r = length vs"
  by (induction "is" arbitrary: vs)
     (auto simp: np_set_def split: sum.splits if_splits)

lemma gather_error: "gather mv lv is vs = Inl e \<Longrightarrow> e = IndexError"
  by (induction "is" arbitrary: vs)
     (auto simp: np_set_def np_get_def Let_def split: sum.splits if_splits)

text \<open>A cell that the loop does not visit keeps its contents.\<close>

lemma gather_untouched:
  "gather mv lv is vs = Inr r \<Longrightarrow> k \<notin> set is \<Longrightarrow> r ! k = vs ! k"
  by (induction "is" arbitrary: vs)
     (auto simp: np_set_def split: sum.splits if_splits)

text \<open>A visited cell ends with the coordinates of the loop's vertex.\<close>

lemma gather_written:
  "gather mv lv is vs = Inr r \<Longrightarrow> k \<in> set is \<Longrightarrow>
   \<exists>j. np_get lv (int k) = Inr j \<and> np_get mv j = Inr (r ! k)"
proof (induction "is" arbitrary: vs)
  case Nil
  then show ?case by simp
next
  case (Cons i rest)
  from Cons.prems(1) obtain j v where
    j: "np_get lv (int i) = Inr j" and v: "np_get mv j = Inr v" and
    i: "i < length vs" and g: "gather mv lv rest (vs[i := v]) = Inr r"
    by (auto simp: np_set_def split: sum.splits if_splits)
  show ?case
  proof (cases "k \<in> set rest")
    case True
    then show ?thesis using Cons.IH [OF g] by simp
  next
    case False
    with Cons.prems(2) have "k = i" by simp
    moreover have "r ! i = v"
      using gather_untouched [OF g False] \<open>k = i\<close> i by simp
    ultimately show ?thesis using j v by simp
  qed
qed

text \<open>Whether the loop raises does not depend on what the array held before.\<close>

lemma gather_error_any_start:
  "gather mv lv is vs = Inl e \<Longrightarrow> length vs' = length vs \<Longrightarrow> gather mv lv is vs' = Inl e"
  by (induction "is" arbitrary: vs vs')
     (auto simp: np_set_def split: sum.splits if_splits)

lemma gather_any_start:
  assumes "length vs = n" "length vs' = n"
  shows "gather mv lv [0..<n] vs = gather mv lv [0..<n] vs'"
proof (cases "gather mv lv [0..<n] vs")
  case (Inl e)
  then show ?thesis using gather_error_any_start [OF Inl, of vs'] assms by simp
next
  case (Inr r)
  show ?thesis
  proof (cases "gather mv lv [0..<n] vs'")
    case (Inl e)
    then show ?thesis using gather_error_any_start [OF Inl, of vs] assms Inr by simp
  next
    case r': (Inr r')
    have "r = r'"
    proof (rule nth_equalityI)
      show "length r = length r'"
        using gather_length [OF Inr] gather_length [OF r'] assms by simp
    next
      fix k assume "k < length r"
      then have k: "k \<in> set [0..<n]" using gather_length [OF Inr] assms by simp
      from gather_written [OF Inr k] gather_written [OF r' k]
      show "r ! k = r' ! k" by auto
    qed
    then show ?thesis using Inr r' by simp
  qed
qed

lemma gather_succeeds:
  assumes "\<forall>i\<in>set is. i < length lv \<and> i < length vs \<and> 0 \<le> lv ! i \<and> lv ! i < int (length mv)"
  shows "\<exists>r. gather mv lv is vs = Inr r"
  using assms
proof (induction "is" arbitrary: vs)
  case Nil
  then show ?case by simp
next
  case (Cons i rest)
  then have i: "i < length lv" "i < length vs" "0 \<le> lv ! i" "lv ! i < int (length mv)"
    by simp_all
  have "\<exists>r. gather mv lv rest (vs[i := mv ! nat (lv ! i)]) = Inr r"
    using Cons.prems by (intro Cons.IH) simp
  then show ?case
    using i by (simp add: np_get_in_range np_set_def)
qed

lemma gather_valid:
  assumes "length lv = n" "length vs = n"
    and "\<forall>i<n. 0 \<le> lv ! i \<and> lv ! i < int (length mv)"
  shows "gather mv lv [0..<n] vs = Inr (map (\<lambda>j. mv ! nat j) lv)"
proof -
  obtain r where r: "gather mv lv [0..<n] vs = Inr r"
    using gather_succeeds [of "[0..<n]" lv vs mv] assms by auto
  have "r = map (\<lambda>j. mv ! nat j) lv"
  proof (rule nth_equalityI)
    show "length r = length (map (\<lambda>j. mv ! nat j) lv)"
      using gather_length [OF r] assms by simp
  next
    fix k assume "k < length r"
    then have k: "k < n" using gather_length [OF r] assms by simp
    then have "k \<in> set [0..<n]" by simp
    from gather_written [OF r this] obtain j where
      "np_get lv (int k) = Inr j" "np_get mv j = Inr (r ! k)" by blast
    moreover have "np_get lv (int k) = Inr (lv ! k)"
      using k assms by (simp add: np_get_in_range)
    moreover have "np_get mv (lv ! k) = Inr (mv ! nat (lv ! k))"
      using k assms by (simp add: np_get_in_range)
    ultimately show "r ! k = map (\<lambda>j. mv ! nat j) lv ! k"
      using k assms by simp
  qed
  then show ?thesis using r by simp
qed

subsection \<open>The constructor's arrays\<close>

text \<open>
  Every \<open>foreach_get\<close> into an array that was allocated with the collection's own
  length goes through; what is left of the constructor is the tangent attempt, the
  gather loop and the colour layer.
\<close>

lemma build_simp:
  "build u m =
     (if calc_tangents m \<noteq> None \<and> calc_tangents m \<noteq> Some RuntimeError
      then Inl (the (calc_tangents m))
      else case gather (vertices m) (map vertex_index (loops m)) [0..<length (loops m)]
                  (np_empty (junk_vertices u) (length (loops m))) of
             Inl e \<Rightarrow> Inl e
           | Inr vertices1 \<Rightarrow>
               (case vertex_colors_active m of
                  None \<Rightarrow>
                    Inr \<lparr>positions = vertices1, normals = map normal (loops m),
                         colors = np_zeros (length (loops m)), indices = loop_triangles m\<rparr>
                | Some layer \<Rightarrow>
                    if length layer = length (loops m)
                    then Inr \<lparr>positions = vertices1, normals = map normal (loops m),
                              colors = layer, indices = loop_triangles m\<rparr>
                    else Inl TypeError))"
  unfolding build_def Let_def
  by (simp add: foreach_get_def length_np_empty np_zeros_def
      split: option.split py_error.split sum.split)

text \<open>On a mesh as the host keeps it, the constructor's arrays are these.\<close>

lemma build_valid:
  assumes "host_mesh m" and "calc_tangents m = None \<or> calc_tangents m = Some RuntimeError"
  shows "build u m =
    Inr \<lparr>positions = map (\<lambda>l. vertices m ! nat (vertex_index l)) (loops m),
         normals = map normal (loops m),
         colors = (case vertex_colors_active m of
                     None \<Rightarrow> replicate (length (loops m)) (0, 0, 0, 0)
                   | Some layer \<Rightarrow> layer),
         indices = loop_triangles m\<rparr>"
proof -
  have "gather (vertices m) (map vertex_index (loops m)) [0..<length (loops m)]
          (np_empty (junk_vertices u) (length (loops m)))
        = Inr (map (\<lambda>j. vertices m ! nat j) (map vertex_index (loops m)))"
    using assms(1)
    by (intro gather_valid) (simp_all add: length_np_empty host_mesh_def list_all_length)
  then show ?thesis
    using assms
    by (auto simp: build_simp np_zeros_def host_mesh_def comp_def split: option.splits)
qed

lemma host_mesh_triangle: "host_mesh triangle"
  by (simp add: host_mesh_def triangle_def tri_below_def)

lemma host_mesh_colored_triangle: "host_mesh colored_triangle"
  by (simp add: host_mesh_def colored_triangle_def triangle_def tri_below_def rgb_layer_def)

lemma build_triangle: "build u triangle = Inr triangle_buffer"
  using build_valid [OF host_mesh_triangle, of u]
  by (simp add: triangle_def triangle_buffer_def)

lemma build_colored_triangle:
  "build u colored_triangle = Inr (triangle_buffer\<lparr>colors := rgb_layer\<rparr>)"
  using build_valid [OF host_mesh_colored_triangle, of u]
  by (simp add: colored_triangle_def triangle_def triangle_buffer_def)

subsection \<open>Properties of the buffer\<close>

text \<open>
  C3. Whenever the constructor gets through its geometry part on a mesh, the
  \<open>position\<close>, \<open>normal\<close> and \<open>color\<close> arrays it hands to the batch have the same
  length, and that length is the number of loops of the mesh.
\<close>

theorem build_lengths_equal_loop_count:
  "build u m = Inr b \<Longrightarrow>
   length (positions b) = length (loops m) \<and>
   length (normals b) = length (positions b) \<and>
   length (colors b) = length (positions b)"
  by (auto simp: build_simp np_zeros_def length_np_empty dest: gather_length
      split: if_splits sum.splits option.splits)

theorem build_lengths_equal_loop_count_witness:
  "build junk0 triangle = Inr triangle_buffer \<and>
   length (positions triangle_buffer) = length (loops triangle) \<and>
   length (normals triangle_buffer) = length (positions triangle_buffer) \<and>
   length (colors triangle_buffer) = length (positions triangle_buffer)"
proof -
  have h: "build junk0 triangle = Inr triangle_buffer"
    by (rule build_triangle)
  from build_lengths_equal_loop_count [OF h] h show ?thesis by simp
qed

text \<open>
  C4. The constructor copies the host's loop triangles into the index array unchanged
  and does not check them. On a mesh whose loop triangles name loops of the mesh (which
  the host's triangulation guarantees), every index of every triple of the buffer is
  below the number of positions.
\<close>

theorem build_indices_in_range:
  "build u m = Inr b \<Longrightarrow>
   list_all (tri_below (length (loops m))) (loop_triangles m) \<Longrightarrow>
   list_all (tri_below (length (positions b))) (indices b)"
  by (auto simp: build_simp np_zeros_def length_np_empty dest: gather_length
      split: if_splits sum.splits option.splits)

theorem build_indices_in_range_witness:
  "build junk0 triangle = Inr triangle_buffer \<and>
   list_all (tri_below (length (loops triangle))) (loop_triangles triangle) \<and>
   list_all (tri_below (length (positions triangle_buffer))) (indices triangle_buffer)"
proof -
  have h: "build junk0 triangle = Inr triangle_buffer"
    by (rule build_triangle)
  have t: "list_all (tri_below (length (loops triangle))) (loop_triangles triangle)"
    by (simp add: triangle_def tri_below_def)
  from build_indices_in_range [OF h t] h t show ?thesis by simp
qed

text \<open>
  C6. On a mesh without an active colour layer every colour of the buffer is
  \<open>(0, 0, 0, 0)\<close>; with an active layer the colours of the buffer are the layer's, one
  per loop, unchanged.
\<close>

theorem build_colors:
  "build u m = Inr b \<Longrightarrow>
   (vertex_colors_active m = None \<longrightarrow> colors b = replicate (length (loops m)) (0, 0, 0, 0)) \<and>
   (\<forall>layer. vertex_colors_active m = Some layer \<longrightarrow> colors b = layer)"
  by (auto simp: build_simp np_zeros_def split: if_splits sum.splits option.splits)

theorem build_colors_witness:
  "build junk0 triangle = Inr triangle_buffer \<and>
   vertex_colors_active triangle = None \<and>
   colors triangle_buffer = replicate (length (loops triangle)) (0, 0, 0, 0) \<and>
   build junk0 colored_triangle = Inr (triangle_buffer\<lparr>colors := rgb_layer\<rparr>) \<and>
   vertex_colors_active colored_triangle = Some rgb_layer \<and>
   colors (triangle_buffer\<lparr>colors := rgb_layer\<rparr>) = rgb_layer"
proof -
  have h: "build junk0 triangle = Inr triangle_buffer"
    by (rule build_triangle)
  have n: "vertex_colors_active triangle = None"
    by (simp add: triangle_def)
  have h': "build junk0 colored_triangle = Inr (triangle_buffer\<lparr>colors := rgb_layer\<rparr>)"
    by (rule build_colored_triangle)
  have l: "vertex_colors_active colored_triangle = Some rgb_layer"
    by (simp add: colored_triangle_def)
  from build_colors [OF h] build_colors [OF h'] h n h' l show ?thesis by simp
qed

text \<open>
  C8. When \<open>calc_tangents\<close> raises \<open>RuntimeError\<close> (tangents unsupported for the mesh),
  the constructor goes on exactly as if the call had succeeded and never raises that
  \<open>RuntimeError\<close>; on a mesh as the host keeps it, it returns a buffer whose normals
  are the loops' normals.
\<close>

theorem build_absorbs_tangent_failure:
  "calc_tangents m = Some RuntimeError \<Longrightarrow>
   build u m = build u (m\<lparr>calc_tangents := None\<rparr>) \<and>
   build u m \<noteq> Inl RuntimeError \<and>
   (\<forall>b. build u m = Inr b \<longrightarrow> normals b = map normal (loops m)) \<and>
   (host_mesh m \<longrightarrow> (\<exists>b. build u m = Inr b))"
proof (intro conjI allI impI)
  assume t: "calc_tangents m = Some RuntimeError"
  show "build u m = build u (m\<lparr>calc_tangents := None\<rparr>)"
    using t by (simp add: build_simp split: sum.split option.split)
  show "build u m \<noteq> Inl RuntimeError"
    using t by (auto simp: build_simp split: sum.splits option.splits dest: gather_error)
  show "normals b = map normal (loops m)" if "build u m = Inr b" for b
    using that by (auto simp: build_simp split: if_splits sum.splits option.splits)
  show "\<exists>b. build u m = Inr b" if "host_mesh m"
    using build_valid [OF that, of u] t by simp
qed

theorem build_absorbs_tangent_failure_witness:
  "calc_tangents triangle = Some RuntimeError \<and> host_mesh triangle \<and>
   build junk0 triangle = build junk0 (triangle\<lparr>calc_tangents := None\<rparr>) \<and>
   build junk0 triangle = Inr triangle_buffer \<and>
   normals triangle_buffer = map normal (loops triangle)"
proof -
  have t: "calc_tangents triangle = Some RuntimeError"
    by (simp add: triangle_def)
  have h: "build junk0 triangle = Inr triangle_buffer"
    by (rule build_triangle)
  from build_absorbs_tangent_failure [OF t, of junk0] t h host_mesh_triangle
  show ?thesis by simp
qed

text \<open>
  C9. Two runs of the constructor's geometry part on the same mesh give the same
  result, component for component, whatever the uninitialised arrays of each run held:
  every cell of every array is overwritten before the arrays reach the batch.
\<close>

theorem build_deterministic: "build u m = build u' m"
proof -
  have "gather mv lv [0..<length (loops m)] (np_empty (junk_vertices u) (length (loops m)))
      = gather mv lv [0..<length (loops m)] (np_empty (junk_vertices u') (length (loops m)))"
    for mv lv
    by (rule gather_any_start) (simp_all add: length_np_empty)
  then show ?thesis
    by (simp add: build_simp)
qed

section \<open>Drawing\<close>

subsection \<open>Packing the lights\<close>

lemma set_xyz_twice: "set_xyz (set_xyz r v) v = set_xyz r v"
  by (simp add: set_xyz_def split: prod.splits)

text \<open>
  As long as every index visited names a light and a row, the loop raises nothing,
  keeps the number of rows and writes exactly the rows visited.
\<close>

lemma pack_rows_in_range:
  assumes "\<forall>i\<in>set is. i < length ls \<and> i < length p"
  shows "\<exists>q. pack_rows ls is p = Inr q \<and> length q = length p \<and>
           (\<forall>k<length p. q ! k = (if k \<in> set is then set_xyz (p ! k) (ls ! k) else p ! k))"
  using assms
proof (induction "is" arbitrary: p)
  case Nil
  then show ?case by simp
next
  case (Cons i rest)
  then have i: "i < length ls" "i < length p"
    by simp_all
  let ?p = "p[i := set_xyz (p ! i) (ls ! i)]"
  have "\<forall>j\<in>set rest. j < length ls \<and> j < length ?p"
    using Cons.prems by simp
  from Cons.IH [OF this] obtain q where
    q: "pack_rows ls rest ?p = Inr q" "length q = length ?p"
      "\<forall>k<length ?p. q ! k = (if k \<in> set rest then set_xyz (?p ! k) (ls ! k) else ?p ! k)"
    by blast
  have "q ! k = (if k \<in> set (i # rest) then set_xyz (p ! k) (ls ! k) else p ! k)"
    if "k < length p" for k
    using q(3) that by (cases "k = i") (simp_all add: set_xyz_twice)
  then show ?case
    using i q(1,2) by (simp add: py_index_def)
qed

text \<open>
  An index at or past the end of the lights, or past the last row, makes the loop raise.
\<close>

lemma pack_rows_out_of_range:
  "i \<in> set is \<Longrightarrow> length ls \<le> i \<or> length p \<le> i \<Longrightarrow> pack_rows ls is p = Inl IndexError"
proof (induction "is" arbitrary: p)
  case Nil
  then show ?case by simp
next
  case (Cons j rest)
  show ?case
  proof (cases "j < length ls \<and> j < length p")
    case False
    then show ?thesis by (auto simp: py_index_def)
  next
    case True
    with Cons.prems have "i \<in> set rest" by auto
    from Cons.IH [OF this, of "p[j := set_xyz (p ! j) (ls ! j)]"] Cons.prems(2) True
    show ?thesis by (simp add: py_index_def)
  qed
qed

lemma min_local_min: "min_local a b = min a b"
  by (simp add: min_local_def)

text \<open>
  The loop of \<open>draw\<close> stays in range because of its \<open>min\<close>, so the packed matrix is the
  first four directions followed by zero rows.
\<close>

lemma packed_lights_eq:
  "packed_lights ls =
     Inr (map row_of (take 4 ls) @ replicate (4 - min (length ls) 4) (0, 0, 0, 0))"
proof -
  let ?z = "replicate 4 ((0, 0, 0, 0) :: vec4)"
  let ?n = "min (length ls) 4"
  have z: "Matrix_Diagonal (0, 0, 0, 0) = ?z"
    by (simp add: Matrix_Diagonal_def eval_nat_numeral)
  have "\<forall>i\<in>set [0..<?n]. i < length ls \<and> i < length ?z"
    by simp
  from pack_rows_in_range [OF this] obtain q where
    q: "pack_rows ls [0..<?n] ?z = Inr q" "length q = 4"
      "\<forall>k<4. q ! k = (if k \<in> set [0..<?n] then set_xyz (?z ! k) (ls ! k) else ?z ! k)"
    by auto
  have "q = map row_of (take 4 ls) @ replicate (4 - ?n) (0, 0, 0, 0)"
  proof (rule nth_equalityI)
    show "length q = length (map row_of (take 4 ls) @ replicate (4 - ?n) (0, 0, 0, 0))"
      using q(2) by simp
  next
    fix k assume "k < length q"
    then have k: "k < 4" using q(2) by simp
    with q(3) have "q ! k = (if k < length ls then set_xyz (0, 0, 0, 0) (ls ! k) else (0, 0, 0, 0))"
      by simp
    then show "q ! k = (map row_of (take 4 ls) @ replicate (4 - ?n) (0, 0, 0, 0)) ! k"
      using k by (auto simp: nth_append set_xyz_def row_of_def split: prod.splits)
  qed
  with q(1) show ?thesis
    by (simp add: packed_lights_def z min_local_min)
qed

text \<open>Without the \<open>min\<close>, a fifth light would make the loop raise at row four.\<close>

lemma pack_rows_all_lights_raises:
  assumes "4 < length ls"
  shows "pack_rows ls [0..<length ls] (Matrix_Diagonal (0, 0, 0, 0)) = Inl IndexError"
proof -
  have "4 \<in> set [0..<length ls]"
    using assms by simp
  moreover have "length ls \<le> 4 \<or> length (Matrix_Diagonal (0, 0, 0, 0)) \<le> 4"
    by (simp add: Matrix_Diagonal_def)
  ultimately show ?thesis
    by (rule pack_rows_out_of_range)
qed

lemma row_of_zero: "row_of v = (0, 0, 0, 0) \<longleftrightarrow> v = (0, 0, 0)"
  by (simp add: row_of_def split: prod.splits)

lemma filter_rows:
  "list_all (\<lambda>v. v \<noteq> (0, 0, 0)) xs \<Longrightarrow>
   filter (\<lambda>r. r \<noteq> (0, 0, 0, 0)) (map row_of xs) = map row_of xs"
  by (induction xs) (simp_all add: row_of_zero)

lemma list_all_take: "list_all P xs \<Longrightarrow> list_all P (take n xs)"
  by (auto simp: list_all_iff dest: in_set_takeD)

subsection \<open>The \<open>try\<close> block of \<open>draw\<close>\<close>

lemma try_body_all:
  "list_all (has_uniform self) bs \<Longrightarrow> try_body self bs = (map (uniform_call self) bs, None)"
  by (induction bs) (auto simp: has_uniform_def uniform_call_def uniform_set_def)

lemma try_body_stops:
  "list_all (has_uniform self) before \<Longrightarrow> nm \<notin> set (uniforms (shader self)) \<Longrightarrow>
   try_body self (before @ (nm, v) # after) = (map (uniform_call self) before, Some ValueError)"
  by (induction before) (auto simp: has_uniform_def uniform_call_def uniform_set_def)

lemma try_body_error: "try_body self bs = (cs, Some e) \<Longrightarrow> e = ValueError"
  by (induction bs arbitrary: cs)
     (auto simp: uniform_set_def split: if_splits prod.splits)

lemma try_body_append:
  "try_body self (xs @ ys) =
     (case try_body self xs of
        (cs, Some e) \<Rightarrow> (cs, Some e)
      | (cs, None) \<Rightarrow> (case try_body self ys of (cs', r) \<Rightarrow> (cs @ cs', r)))"
  by (induction xs) (auto split: sum.splits prod.splits option.splits)

text \<open>
  The packing never raises, so the block is the run of the seven uniform calls of the
  binding sequence.
\<close>

lemma try_block_eq: "try_block self tr rd ls st = try_body self (bindings tr rd ls st)"
  by (simp add: try_block_def bindings_def packed_lights_eq try_body_append
      split: prod.split option.split)

text \<open>\<open>draw\<close> itself never raises: the only exception of its body is the one it catches.\<close>

lemma draw_no_error: "snd (draw self tr rd ls st) = None"
proof (cases "try_body self (bindings tr rd ls st)")
  case (Pair cs r)
  then show ?thesis
    by (cases r) (auto simp: draw_def try_block_eq dest: try_body_error)
qed

text \<open>With every uniform present, all seven are set between the bind and the draw.\<close>

lemma draw_all_uniforms:
  "list_all (has_uniform self) (bindings tr rd ls st) \<Longrightarrow>
   draw self tr rd ls st =
     (ShaderBind (ident self) # map (uniform_call self) (bindings tr rd ls st)
        @ [BatchDraw (ident self)], None)"
  using try_body_all [of self "bindings tr rd ls st"]
  by (simp add: draw_def try_block_eq)

subsection \<open>The light matrix of a draw call\<close>

text \<open>
  C5. For \<open>n\<close> lights the packing in \<open>draw\<close> returns a matrix of four rows; row \<open>i\<close> is
  the \<open>i\<close>-th light direction (fourth component zero) for \<open>i < min n 4\<close> and zero from
  there on; lights after the fourth change nothing, and neither the packing nor \<open>draw\<close>
  raises for any number of lights. The directions of the engine's lights are rotated
  unit vectors; as long as none of them is the zero vector, exactly \<open>min n 4\<close> rows are
  non-zero. The uniform \<open>directional_lights\<close> is bound to the transpose of that matrix.
\<close>

theorem packed_lights_rows:
  "\<exists>p. packed_lights ls = Inr p \<and>
     length p = 4 \<and>
     (\<forall>i<4. p ! i = (if i < length ls then row_of (ls ! i) else (0, 0, 0, 0))) \<and>
     packed_lights (take 4 ls) = Inr p \<and>
     (list_all (\<lambda>v. v \<noteq> (0, 0, 0)) ls \<longrightarrow>
        length (filter (\<lambda>r. r \<noteq> (0, 0, 0, 0)) p) = min (length ls) 4) \<and>
     (''directional_lights'', FloatMatrix (transposed p)) \<in> set (bindings tr rd ls st) \<and>
     snd (draw self tr rd ls st) = None"
proof -
  let ?p = "map row_of (take 4 ls) @ replicate (4 - min (length ls) 4) (0, 0, 0, 0)"
  have p: "packed_lights ls = Inr ?p"
    by (rule packed_lights_eq)
  have "length ?p = 4"
    by simp
  moreover have "\<forall>i<4. ?p ! i = (if i < length ls then row_of (ls ! i) else (0, 0, 0, 0))"
    by (auto simp: nth_append)
  moreover have "packed_lights (take 4 ls) = Inr ?p"
    by (simp add: packed_lights_eq)
  moreover have "length (filter (\<lambda>r. r \<noteq> (0, 0, 0, 0)) ?p) = min (length ls) 4"
    if "list_all (\<lambda>v. v \<noteq> (0, 0, 0)) ls"
    using filter_rows [OF list_all_take [OF that, of 4]] by simp
  moreover have "(''directional_lights'', FloatMatrix (transposed ?p)) \<in> set (bindings tr rd ls st)"
    by (simp add: bindings_def p bindings_tail_def)
  moreover have "snd (draw self tr rd ls st) = None"
    by (rule draw_no_error)
  ultimately show ?thesis
    using p by blast
qed

lemma six_suns_nonzero: "list_all (\<lambda>v. v \<noteq> (0, 0, 0)) six_suns"
  by (simp add: six_suns_def)

lemma length_six_suns: "length six_suns = 6"
  by (simp add: six_suns_def)

theorem packed_lights_rows_witness:
  "list_all (\<lambda>v. v \<noteq> (0, 0, 0)) six_suns \<and>
   length six_suns = 6 \<and>
   packed_lights six_suns = Inr [(1, 0, 0, 0), (0, 1, 0, 0), (0, 0, 1, 0), (-1, 0, 0, 0)] \<and>
   length (filter (\<lambda>r. r \<noteq> (0, 0, 0, 0))
     [(1, 0, 0, 0), (0, 1, 0, 0), (0, 0, 1, 0), (-1 :: real, 0 :: real, 0 :: real, 0 :: real)]) = 4 \<and>
   snd (draw plane_draw identity4 view0 six_suns settings0) = None \<and>
   packed_lights (take 4 six_suns) =
     Inr [(1, 0, 0, 0), (0, 1, 0, 0), (0, 0, 1, 0), (-1, 0, 0, 0)] \<and>
   packed_lights (take 1 six_suns) =
     Inr [(1, 0, 0, 0), (0, 0, 0, 0), (0, 0, 0, 0), (0, 0, 0, 0)] \<and>
   length (filter (\<lambda>r. r \<noteq> (0, 0, 0, 0))
     [(1, 0, 0, 0), (0, 0, 0, 0), (0, 0, 0, 0), (0 :: real, 0 :: real, 0 :: real, 0 :: real)]) = 1 \<and>
   packed_lights [] = Inr [(0, 0, 0, 0), (0, 0, 0, 0), (0, 0, 0, 0), (0, 0, 0, 0)] \<and>
   length (filter (\<lambda>r. r \<noteq> (0, 0, 0, 0))
     [(0, 0, 0, 0), (0, 0, 0, 0), (0, 0, 0, 0), (0 :: real, 0 :: real, 0 :: real, 0 :: real)]) = 0"
proof -
  have e: "packed_lights six_suns = Inr [(1, 0, 0, 0), (0, 1, 0, 0), (0, 0, 1, 0), (-1, 0, 0, 0)]"
    by (simp add: packed_lights_eq six_suns_def row_of_def)
  from packed_lights_rows [of six_suns identity4 view0 settings0 plane_draw]
  obtain p where p: "packed_lights six_suns = Inr p"
    and t: "packed_lights (take 4 six_suns) = Inr p"
    and c: "list_all (\<lambda>v. v \<noteq> (0, 0, 0)) six_suns \<longrightarrow>
              length (filter (\<lambda>r. r \<noteq> (0, 0, 0, 0)) p) = min (length six_suns) 4"
    and d: "snd (draw plane_draw identity4 view0 six_suns settings0) = None"
    by blast
  from p e have p6: "p = [(1, 0, 0, 0), (0, 1, 0, 0), (0, 0, 1, 0), (-1, 0, 0, 0)]"
    by simp
  with c six_suns_nonzero length_six_suns
  have c6: "length (filter (\<lambda>r. r \<noteq> (0, 0, 0, 0))
     [(1, 0, 0, 0), (0, 1, 0, 0), (0, 0, 1, 0), (-1 :: real, 0 :: real, 0 :: real, 0 :: real)]) = 4"
    by simp
  from t p6 have e4: "packed_lights (take 4 six_suns) =
      Inr [(1, 0, 0, 0), (0, 1, 0, 0), (0, 0, 1, 0), (-1, 0, 0, 0)]"
    by simp
  have e1: "packed_lights (take 1 six_suns) =
      Inr [(1, 0, 0, 0), (0, 0, 0, 0), (0, 0, 0, 0), (0, 0, 0, 0)]"
    by (simp add: packed_lights_eq six_suns_def row_of_def eval_nat_numeral)
  have n1: "list_all (\<lambda>v. v \<noteq> (0, 0, 0)) (take 1 six_suns)"
    by (simp add: six_suns_def)
  have l1: "length (take 1 six_suns) = 1"
    by (simp add: six_suns_def)
  from packed_lights_rows [of "take 1 six_suns" identity4 view0 settings0 plane_draw]
  obtain q where q: "packed_lights (take 1 six_suns) = Inr q"
    and cq: "list_all (\<lambda>v. v \<noteq> (0, 0, 0)) (take 1 six_suns) \<longrightarrow>
              length (filter (\<lambda>r. r \<noteq> (0, 0, 0, 0)) q) = min (length (take 1 six_suns)) 4"
    by blast
  from q e1 have "q = [(1, 0, 0, 0), (0, 0, 0, 0), (0, 0, 0, 0), (0, 0, 0, 0)]"
    by simp
  with cq n1 l1
  have c1: "length (filter (\<lambda>r. r \<noteq> (0, 0, 0, 0))
     [(1, 0, 0, 0), (0, 0, 0, 0), (0, 0, 0, 0), (0 :: real, 0 :: real, 0 :: real, 0 :: real)]) = 1"
    by simp
  have e0: "packed_lights [] = Inr [(0, 0, 0, 0), (0, 0, 0, 0), (0, 0, 0, 0), (0, 0, 0, 0)]"
    by (simp add: packed_lights_eq eval_nat_numeral)
  from packed_lights_rows [of "[]" identity4 view0 settings0 plane_draw]
  obtain r where r: "packed_lights [] = Inr r"
    and cr: "list_all (\<lambda>v. v \<noteq> (0, 0, 0)) ([] :: vec3 list) \<longrightarrow>
              length (filter (\<lambda>r. r \<noteq> (0, 0, 0, 0)) r) = min (length ([] :: vec3 list)) 4"
    by blast
  from r e0 have "r = [(0, 0, 0, 0), (0, 0, 0, 0), (0, 0, 0, 0), (0, 0, 0, 0)]"
    by simp
  with cr
  have c0: "length (filter (\<lambda>r. r \<noteq> (0, 0, 0, 0))
     [(0, 0, 0, 0), (0, 0, 0, 0), (0, 0, 0, 0), (0 :: real, 0 :: real, 0 :: real, 0 :: real)]) = 0"
    by simp
  from six_suns_nonzero length_six_suns e c6 d e4 e1 c1 e0 c0 show ?thesis
    by (intro conjI)
qed

subsection \<open>A uniform that the program lacks\<close>

text \<open>
  C2, as the code has it. One \<open>try\<close> block holds all seven uniform calls, so the first
  uniform that the program lacks ends the block: the uniforms before it are set, it
  and every uniform after it are not, and the batch is still drawn, with no exception.
\<close>

theorem draw_after_failed_uniform:
  assumes "bindings tr rd ls st = before @ (nm, v) # after"
    and "list_all (has_uniform self) before"
    and "nm \<notin> set (uniforms (shader self))"
  shows "draw self tr rd ls st =
           (ShaderBind (ident self) # map (uniform_call self) before @ [BatchDraw (ident self)],
            None)"
  using try_body_stops [OF assms(2,3), of v after] assms(1)
  by (simp add: draw_def try_block_eq)

text \<open>
  The claim as stated fails: a program that lacks only \<open>matrix_world\<close> has
  \<open>view_matrix\<close> (and the five uniforms after it), and \<open>draw\<close> sets none of them.
\<close>

theorem draw_after_failed_uniform_counterexample:
  "''matrix_world'' \<notin> set (uniforms (shader stale_draw)) \<and>
   ''view_matrix'' \<in> set (uniforms (shader stale_draw)) \<and>
   draw stale_draw identity4 view0 [] settings0 = ([ShaderBind 1, BatchDraw 1], None)"
  by (simp add: draw_def try_block_def bindings_head_def stale_draw_def plane_draw_def
      stale_program_def uniform_set_def)

lemma packed_lights_Nil: "packed_lights [] = Inr (Matrix_Diagonal (0, 0, 0, 0))"
  by (simp add: packed_lights_def min_local_def)

theorem draw_after_failed_uniform_witness:
  "bindings identity4 view0 [] settings0 =
     [(''matrix_world'', FloatMatrix identity4),
      (''view_matrix'', FloatMatrix identity4),
      (''projection_matrix'', FloatMatrix identity4)]
     @ (''directional_lights'', FloatMatrix (transposed (Matrix_Diagonal (0, 0, 0, 0))))
     # [(''render_outlines'', BoolList [True]),
        (''outline_width'', FloatNumber 1),
        (''shading_sharpness'', FloatNumber 1)] \<and>
   list_all (has_uniform no_lights_draw)
     [(''matrix_world'', FloatMatrix identity4),
      (''view_matrix'', FloatMatrix identity4),
      (''projection_matrix'', FloatMatrix identity4)] \<and>
   ''directional_lights'' \<notin> set (uniforms (shader no_lights_draw)) \<and>
   draw no_lights_draw identity4 view0 [] settings0 =
     ([ShaderBind 1,
       Uniform 1 ''matrix_world'' (FloatMatrix identity4),
       Uniform 1 ''view_matrix'' (FloatMatrix identity4),
       Uniform 1 ''projection_matrix'' (FloatMatrix identity4),
       BatchDraw 1], None)"
proof -
  have b: "bindings identity4 view0 [] settings0 =
     [(''matrix_world'', FloatMatrix identity4),
      (''view_matrix'', FloatMatrix identity4),
      (''projection_matrix'', FloatMatrix identity4)]
     @ (''directional_lights'', FloatMatrix (transposed (Matrix_Diagonal (0, 0, 0, 0))))
     # [(''render_outlines'', BoolList [True]),
        (''outline_width'', FloatNumber 1),
        (''shading_sharpness'', FloatNumber 1)]"
    by (simp add: bindings_def bindings_head_def bindings_tail_def packed_lights_Nil
        view0_def settings0_def)
  have a: "list_all (has_uniform no_lights_draw)
     [(''matrix_world'', FloatMatrix identity4),
      (''view_matrix'', FloatMatrix identity4),
      (''projection_matrix'', FloatMatrix identity4)]"
    by (simp add: has_uniform_def no_lights_draw_def no_lights_program_def)
  have n: "''directional_lights'' \<notin> set (uniforms (shader no_lights_draw))"
    by (simp add: no_lights_draw_def no_lights_program_def)
  have i: "ident no_lights_draw = 1"
    by (simp add: no_lights_draw_def plane_draw_def)
  from draw_after_failed_uniform [OF b a n] b a n i show ?thesis
    by (simp add: uniform_call_def)
qed

subsection \<open>The loop of \<open>view_draw\<close>\<close>

lemma draw_objects_cached: "list_all (cached s) obs \<Longrightarrow> snd (draw_objects s c obs) = None"
proof (induction obs)
  case Nil
  then show ?case by simp
next
  case (Cons ob rest)
  then obtain d where d: "draw_calls s (name ob) = Some d"
    by (auto simp: cached_def)
  obtain cs where cs: "draw d (matrix_world ob) (context_region_data c) (lights s)
      (custom_render_engine c) = (cs, None)"
    using draw_no_error [of d "matrix_world ob" "context_region_data c" "lights s"
        "custom_render_engine c"]
    by (cases "draw d (matrix_world ob) (context_region_data c) (lights s)
        (custom_render_engine c)") simp
  show ?case
    using Cons d cs by (auto split: prod.splits)
qed

lemma draw_objects_append:
  "snd (draw_objects s c xs) = None \<Longrightarrow>
   draw_objects s c (xs @ ys) =
     (fst (draw_objects s c xs) @ fst (draw_objects s c ys), snd (draw_objects s c ys))"
  by (induction xs) (auto split: option.splits prod.splits)

text \<open>With every visible object cached, the frame is drawn and the GPU state set back.\<close>

lemma view_draw_all_cached:
  assumes "list_all (cached s) (mesh_objects s)"
  shows "view_draw s c dg =
     (gpu_state_begin @ fst (draw_objects s c (mesh_objects s)) @ gpu_state_end, None)"
proof (cases "draw_objects s c (mesh_objects s)")
  case (Pair cs r)
  with draw_objects_cached [OF assms, of c] have "r = None" by simp
  with Pair show ?thesis by (simp add: view_draw_def)
qed

text \<open>
  C1, as the code has it. \<open>view_draw\<close> looks the entry up with
  \<open>self.draw_calls[object.name]\<close> and has no handler: at the first visible object
  without an entry it makes no GPU call for that object and raises \<open>KeyError\<close>. The
  objects before it have been drawn; the objects after it are not drawn, and the GPU
  state is not set back.
\<close>

theorem view_draw_missing_entry:
  assumes "mesh_objects s = before @ ob # after"
    and "list_all (cached s) before"
    and "draw_calls s (name ob) = None"
  shows "view_draw s c dg = (gpu_state_begin @ fst (draw_objects s c before), Some KeyError) \<and>
         snd (draw_objects s c before) = None"
proof -
  have b: "snd (draw_objects s c before) = None"
    using assms(2) by (rule draw_objects_cached)
  have "draw_objects s c (ob # after) = ([], Some KeyError)"
    using assms(3) by simp
  then have "draw_objects s c (mesh_objects s) = (fst (draw_objects s c before), Some KeyError)"
    using draw_objects_append [OF b, of "ob # after"] assms(1) by simp
  then show ?thesis
    using b by (simp add: view_draw_def)
qed

text \<open>
  The claim as stated fails: with the cube visible but not cached, \<open>view_draw\<close> raises
  \<open>KeyError\<close> after the three state calls, and the plane, which is cached, is not drawn.
\<close>

theorem view_draw_missing_entry_counterexample:
  "mesh_objects stale_engine = [cube, plane] \<and>
   draw_calls stale_engine (name cube) = None \<and>
   draw_calls stale_engine (name plane) = Some plane_draw \<and>
   view_draw stale_engine context0 depsgraph0 = (gpu_state_begin, Some KeyError)"
  by (simp add: view_draw_def stale_engine_def cube_def plane_def)

theorem view_draw_missing_entry_witness:
  "mesh_objects stale_engine2 = [plane] @ cube # [plane] \<and>
   list_all (cached stale_engine2) [plane] \<and>
   draw_calls stale_engine2 (name cube) = None \<and>
   view_draw stale_engine2 context0 depsgraph0 =
     (gpu_state_begin @ fst (draw_objects stale_engine2 context0 [plane]), Some KeyError) \<and>
   snd (draw_objects stale_engine2 context0 [plane]) = None"
proof -
  have m: "mesh_objects stale_engine2 = [plane] @ cube # [plane]"
    by (simp add: stale_engine2_def)
  have b: "list_all (cached stale_engine2) [plane]"
    by (simp add: cached_def stale_engine2_def stale_engine_def plane_def)
  have n: "draw_calls stale_engine2 (name cube) = None"
    by (simp add: stale_engine2_def stale_engine_def cube_def)
  from view_draw_missing_entry [OF m b n, of context0 depsgraph0] m b n show ?thesis
    by simp
qed

section \<open>Scene changes\<close>

subsection \<open>The cache\<close>

lemma cache_mesh_other:
  "name ob \<noteq> k \<Longrightarrow> draw_calls (snd (cache_mesh h s ob)) k = draw_calls s k"
  by (simp add: cache_mesh_def split: sum.splits)

text \<open>A rebuilt entry is a new object: its identity is the next unused one.\<close>

lemma cache_mesh_fresh:
  "cache_mesh h s ob = (None, s') \<Longrightarrow>
   \<exists>d. draw_calls s' (name ob) = Some d \<and> ident d = allocated s \<and> allocated s' = Suc (allocated s)"
  unfolding cache_mesh_def MeshDraw_init_def
  by (auto split: sum.splits obj_data.splits)

lemma sync_updates_keeps:
  "list_all (\<lambda>u. \<not> rebuilds k u) us \<Longrightarrow>
   draw_calls (snd (sync_updates h s us)) k = draw_calls s k"
proof (induction us arbitrary: s)
  case Nil
  then show ?case by simp
next
  case (Cons u rest)
  then have rest: "draw_calls (snd (sync_updates h s' rest)) k = draw_calls s' k" for s'
    by simp
  show ?case
  proof (cases "update_id u")
    case (OtherID x)
    then show ?thesis using rest by simp
  next
    case (Object ob)
    show ?thesis
    proof (cases "type ob = ''MESH'' \<and> is_updated_geometry u")
      case False
      then show ?thesis using Object rest by auto
    next
      case True
      with Cons.prems Object have "name ob \<noteq> k"
        by (auto simp: rebuilds_def)
      from cache_mesh_other [OF this, of h s] show ?thesis
        using Object True rest [of "snd (cache_mesh h s ob)"]
        by (cases "cache_mesh h s ob") (auto split: option.splits)
    qed
  qed
qed

lemma view_update_later_draw_calls:
  "truthy (scene_data s) \<Longrightarrow>
   draw_calls (snd (view_update h s c dg)) = draw_calls (snd (sync_updates h s (updates dg)))"
  by (auto simp: view_update_def Let_def split: prod.splits option.splits)

text \<open>
  C7. After the first sync (\<open>scene_data\<close> is set), a notification in which no update
  is a geometry update of a mesh object named \<open>k\<close> leaves the entry under \<open>k\<close> as it
  was: the same \<open>MeshDraw\<close>, with the same identity and the same buffer, whether or not
  objects were updated and whether or not the method raises later on.
\<close>

theorem view_update_keeps_entry:
  assumes "truthy (scene_data s)"
    and "list_all (\<lambda>u. \<not> rebuilds k u) (updates dg)"
  shows "draw_calls (snd (view_update h s c dg)) k = draw_calls s k"
  using sync_updates_keeps [OF assms(2), of h s]
    view_update_later_draw_calls [OF assms(1), of h c dg]
  by simp

theorem view_update_keeps_entry_witness:
  "truthy (scene_data synced_engine) \<and>
   list_all (\<lambda>u. \<not> rebuilds ''Cube'' u) (updates moved) \<and>
   draw_calls (snd (view_update host0 synced_engine context0 moved)) ''Cube'' = Some cube_draw"
proof -
  have t: "truthy (scene_data synced_engine)"
    by (simp add: truthy_def synced_engine_def)
  have u: "list_all (\<lambda>u. \<not> rebuilds ''Cube'' u) (updates moved)"
    by (simp add: moved_def rebuilds_def cube_def plane_def)
  have "draw_calls synced_engine ''Cube'' = Some cube_draw"
    by (simp add: synced_engine_def)
  with view_update_keeps_entry [OF t u, of host0 context0] t u show ?thesis
    by simp
qed

subsection \<open>Visible objects and lights\<close>

lemma collect_meshes_eq:
  "collect_meshes is acc = acc @ filter (\<lambda>ob. type ob = ''MESH'') (map object is)"
  by (induction "is" arbitrary: acc) simp_all

lemma collect_lights_eq:
  "collect_lights h is acc = (None, ls) \<Longrightarrow>
   ls = acc @ map (\<lambda>ob. sun_direction h (matrix_world ob)) (filter is_sun (map object is))"
proof (induction "is" arbitrary: acc)
  case Nil
  then show ?case by simp
next
  case (Cons i rest)
  show ?case
  proof (cases "is_sun (object i)")
    case True
    with Cons.prems
    have "collect_lights h rest (acc @ [sun_direction h (matrix_world (object i))]) = (None, ls)"
      by (simp add: is_sun_def)
    from Cons.IH [OF this] True show ?thesis by simp
  next
    case False
    with Cons.prems have "collect_lights h rest acc = (None, ls)"
      by (auto simp: is_sun_def split: if_splits obj_data.splits)
    from Cons.IH [OF this] False show ?thesis by simp
  qed
qed

text \<open>
  C10. When \<open>view_update\<close> recomputes visibility (first sync, or objects updated) and
  returns, the list of visible mesh objects is exactly the mesh objects of the
  notification's instances, in their order, and the lights are exactly the directions of
  its sun lights, in their order. Neither depends on what the lists held before, so a
  repeated notification appends nothing.
\<close>

theorem view_update_rescans:
  assumes "view_update h s c dg = (None, s')"
    and "\<not> truthy (scene_data s) \<or> id_type_updated dg ''OBJECT''"
  shows "mesh_objects s' = filter (\<lambda>ob. type ob = ''MESH'') (map object (object_instances dg)) \<and>
         lights s' = map (\<lambda>ob. sun_direction h (matrix_world ob))
                       (filter is_sun (map object (object_instances dg)))"
  using assms
  by (auto simp: view_update_def Let_def collect_meshes_eq
      split: if_splits prod.splits option.splits dest!: collect_lights_eq)

text \<open>The notification \<open>moved\<close> on the synced engine, step by step.\<close>

lemma view_update_moved:
  "view_update host0 synced_engine context0 moved =
     (None, synced_engine
        \<lparr>draw_calls := (draw_calls synced_engine)
           (''Plane'' \<mapsto> plane_draw\<lparr>ident := 2\<rparr>),
         allocated := 3, mesh_objects := [cube, plane], lights := [(1, 0, 0)]\<rparr>)"
proof -
  have b: "MeshDraw_init host0 2 (data plane) = Inr (plane_draw\<lparr>ident := 2, draw_object := None\<rparr>)"
    by (simp add: MeshDraw_init_def plane_def build_colored_triangle host0_def plane_draw_def)
  have c: "cache_mesh host0 synced_engine plane =
      (None, synced_engine\<lparr>draw_calls := (draw_calls synced_engine)
           (''Plane'' \<mapsto> plane_draw\<lparr>ident := 2\<rparr>), allocated := 3\<rparr>)"
    using b by (simp add: cache_mesh_def synced_engine_def plane_def plane_draw_def)
  have u: "sync_updates host0 synced_engine (updates moved) =
      (None, synced_engine\<lparr>draw_calls := (draw_calls synced_engine)
           (''Plane'' \<mapsto> plane_draw\<lparr>ident := 2\<rparr>), allocated := 3\<rparr>)"
    using c by (simp add: moved_def cube_def) (simp add: plane_def)
  have m: "collect_meshes (object_instances moved) [] = [cube, plane]"
    by (simp add: moved_def cube_def plane_def sun_def lamp_def camera_def)
  have l: "collect_lights host0 (object_instances moved) [] = (None, [(1, 0, 0)])"
    by (simp add: moved_def cube_def plane_def sun_def lamp_def camera_def host0_def
        tilted_def component_def)
  have t: "truthy (scene_data synced_engine)"
    by (simp add: truthy_def synced_engine_def)
  have o: "id_type_updated moved ''OBJECT''"
    by (simp add: moved_def)
  show ?thesis
    using t o by (simp add: view_update_def u m l)
qed


theorem view_update_rescans_witness:
  "view_update host0 synced_engine context0 moved =
     (None, synced_engine
        \<lparr>draw_calls := (draw_calls synced_engine)
           (''Plane'' \<mapsto> plane_draw\<lparr>ident := 2\<rparr>),
         allocated := 3, mesh_objects := [cube, plane], lights := [(1, 0, 0)]\<rparr>) \<and>
   id_type_updated moved ''OBJECT'' \<and>
   lights synced_engine = [(0, 0, 1)] \<and>
   filter (\<lambda>ob. type ob = ''MESH'') (map object (object_instances moved)) = [cube, plane] \<and>
   map (\<lambda>ob. sun_direction host0 (matrix_world ob))
     (filter is_sun (map object (object_instances moved))) = [(1, 0, 0)]"
proof -
  have u: "\<not> truthy (scene_data synced_engine) \<or> id_type_updated moved ''OBJECT''"
    by (simp add: moved_def)
  have o: "id_type_updated moved ''OBJECT''"
    by (simp add: moved_def)
  have l: "lights synced_engine = [(0, 0, 1)]"
    by (simp add: synced_engine_def)
  from view_update_rescans [OF view_update_moved u] view_update_moved o l show ?thesis
    by simp
qed

end
